theory Spec2Isabelle
  imports Main "HOL-Library.Finite_Map" "HOL-Library.Sublist"
begin

section \<open>Values\<close>

text \<open>
  The values an atom holds are JavaScript values. The model keeps the primitives and
  plain objects (finite maps from property names to values); numbers are integers.
  A thrown or rejected reason is a \<open>failure\<close>: a \<open>TypeError\<close> of the runtime, an
  error raised by the patch engine, or any value thrown by user code.
\<close>

datatype val = VUndefined | VNull | VBool bool | VNum int | VStr string
  | VObj "(string, val) fmap"

datatype failure = TypeError string | PatchError string | Thrown val

type_synonym path = "string list"

text \<open>JavaScript truthiness, as the condition of an \<open>if\<close> reads a value.\<close>

fun truthy :: "val \<Rightarrow> bool" where
  "truthy VUndefined = False"
| "truthy VNull = False"
| "truthy (VBool b) = b"
| "truthy (VNum n) = (n \<noteq> 0)"
| "truthy (VStr s) = (s \<noteq> [])"
| "truthy (VObj m) = True"

section \<open>Drafts: reading and writing at a path\<close>

fun fields_of :: "val \<Rightarrow> (string, val) fmap option" where
  "fields_of (VObj m) = Some m"
| "fields_of _ = None"

fun get_at :: "path \<Rightarrow> val \<Rightarrow> val option" where
  "get_at [] v = Some v"
| "get_at (k # ks) v =
     (case fields_of v of
        None \<Rightarrow> None
      | Some m \<Rightarrow> (case fmlookup m k of None \<Rightarrow> None | Some c \<Rightarrow> get_at ks c))"

definition set_key :: "string \<Rightarrow> val option \<Rightarrow> (string, val) fmap \<Rightarrow> (string, val) fmap" where
  "set_key k x m = (case x of None \<Rightarrow> fmdrop k m | Some y \<Rightarrow> fmupd k y m)"

text \<open>
  \<open>alter_at p x v\<close> walks the path \<open>p\<close> down from \<open>v\<close>; every node it passes must be an
  object. At the last key it assigns (\<open>x = Some y\<close>) or deletes (\<open>x = None\<close>) the
  property. \<open>None\<close> is the result when the path does not resolve.
\<close>

fun alter_at :: "path \<Rightarrow> val option \<Rightarrow> val \<Rightarrow> val option" where
  "alter_at [] x v = None"
| "alter_at (k # ks) x v =
     (case fields_of v of
        None \<Rightarrow> None
      | Some m \<Rightarrow>
          if ks = [] then Some (VObj (set_key k x m))
          else (case fmlookup m k of
                  None \<Rightarrow> None
                | Some c \<Rightarrow> (case alter_at ks x c of
                              None \<Rightarrow> None
                            | Some c' \<Rightarrow> Some (VObj (fmupd k c' m)))))"

text \<open>\<open>put_at p s v\<close>: the sub-draft found at \<open>p\<close> in \<open>v\<close> has become \<open>s\<close>.\<close>

fun put_at :: "path \<Rightarrow> val \<Rightarrow> val \<Rightarrow> val" where
  "put_at [] s v = s"
| "put_at (k # ks) s v =
     (case fields_of v of
        None \<Rightarrow> v
      | Some m \<Rightarrow> (case fmlookup m k of
                    None \<Rightarrow> v
                  | Some c \<Rightarrow> VObj (fmupd k (put_at ks s c) m)))"


text \<open>
  A function that mutates a draft is modelled by what it does to the draft: it either
  throws, or performs a sequence of property writes that it chooses after reading the
  draft. \<open>Assign p k x\<close> is \<open>draft.p.k = x\<close> and \<open>Delete p k\<close> is \<open>delete draft.p.k\<close>, where
  \<open>p\<close> leads to the object written. A write whose object path does not resolve to an
  object throws a \<open>TypeError\<close>.
\<close>

datatype draft_write = Assign path string val | Delete path string

fun write_path :: "draft_write \<Rightarrow> path" where
  "write_path (Assign p k x) = p @ [k]"
| "write_path (Delete p k) = p @ [k]"

fun write_value :: "draft_write \<Rightarrow> val option" where
  "write_value (Assign p k x) = Some x"
| "write_value (Delete p k) = None"


definition apply_write :: "draft_write \<Rightarrow> val \<Rightarrow> failure + val" where
  "apply_write w v =
     (case alter_at (write_path w) (write_value w) v of
        None \<Rightarrow> Inl (TypeError ''Cannot write a property of a non-object'')
      | Some v' \<Rightarrow> Inr v')"

fun run_writes :: "draft_write list \<Rightarrow> val \<Rightarrow> failure + val" where
  "run_writes [] v = Inr v"
| "run_writes (w # ws) v =
     (case apply_write w v of Inl e \<Rightarrow> Inl e | Inr v' \<Rightarrow> run_writes ws v')"

text \<open>A mutator that returns nothing, run against a draft.\<close>

definition mutate :: "(val \<Rightarrow> failure + draft_write list) \<Rightarrow> val \<Rightarrow> failure + val" where
  "mutate f draft = (case f draft of Inl e \<Rightarrow> Inl e | Inr ws \<Rightarrow> run_writes ws draft)"

section \<open>The patch engine\<close>

text \<open>
  Modelled from the spec: the structural-diff engine (\<open>produceWithPatches\<close> and
  \<open>applyPatches\<close> of the immer library), which is imported by \<open>src/index.ts\<close> and not
  part of it. A patch is a path-addressed structural change, produced in pairs: the
  forward patches lead from the old value to the new one, the inverse patches lead back.
  \<open>applyPatches\<close> fails when a patch's path does not resolve.
\<close>

datatype patch = Replace path val | Add path val | Remove path

fun patch_path :: "patch \<Rightarrow> path" where
  "patch_path (Replace p x) = p"
| "patch_path (Add p x) = p"
| "patch_path (Remove p) = p"

fun patch_value :: "patch \<Rightarrow> val option" where
  "patch_value (Replace p x) = Some x"
| "patch_value (Add p x) = Some x"
| "patch_value (Remove p) = None"

definition applyPatch :: "patch \<Rightarrow> val \<Rightarrow> failure + val" where
  "applyPatch a v =
     (case alter_at (patch_path a) (patch_value a) v of
        None \<Rightarrow> Inl (PatchError ''Cannot apply patch, path does not resolve'')
      | Some v' \<Rightarrow> Inr v')"

fun applyPatches :: "val \<Rightarrow> patch list \<Rightarrow> failure + val" where
  "applyPatches draft [] = Inr draft"
| "applyPatches draft (a # as) =
     (case applyPatch a draft of Inl e \<Rightarrow> Inl e | Inr draft' \<Rightarrow> applyPatches draft' as)"

text \<open>The forward and the inverse patch of one write, given the value it is made on.\<close>

fun forward_patch :: "draft_write \<Rightarrow> val \<Rightarrow> patch list" where
  "forward_patch (Assign p k x) v =
     (case get_at (p @ [k]) v of
        Some old \<Rightarrow> [Replace (p @ [k]) x]
      | None \<Rightarrow> [Add (p @ [k]) x])"
| "forward_patch (Delete p k) v =
     (case get_at (p @ [k]) v of
        Some old \<Rightarrow> [Remove (p @ [k])]
      | None \<Rightarrow> [])"

fun inverse_patch :: "draft_write \<Rightarrow> val \<Rightarrow> patch list" where
  "inverse_patch (Assign p k x) v =
     (case get_at (p @ [k]) v of
        Some old \<Rightarrow> [Replace (p @ [k]) old]
      | None \<Rightarrow> [Remove (p @ [k])])"
| "inverse_patch (Delete p k) v =
     (case get_at (p @ [k]) v of
        Some old \<Rightarrow> [Add (p @ [k]) old]
      | None \<Rightarrow> [])"

fun produce_writes :: "draft_write list \<Rightarrow> val \<Rightarrow> failure + (val \<times> patch list \<times> patch list)" where
  "produce_writes [] v = Inr (v, [], [])"
| "produce_writes (w # ws) v =
     (case apply_write w v of
        Inl e \<Rightarrow> Inl e
      | Inr v' \<Rightarrow>
          (case produce_writes ws v' of
             Inl e \<Rightarrow> Inl e
           | Inr (nxt, patches, inverses) \<Rightarrow>
               Inr (nxt, forward_patch w v @ patches, inverses @ inverse_patch w v)))"

text \<open>
  \<open>produceWithPatches base recipe\<close>: the recipe runs on a draft of \<open>base\<close>. The value the
  recipe hands out (the runner's recipe stores it in \<open>resultContext\<close>) is returned as
  the fourth component.
\<close>

definition produceWithPatches ::
  "val \<Rightarrow> (val \<Rightarrow> failure + draft_write list \<times> 'c) \<Rightarrow> failure + (val \<times> patch list \<times> patch list \<times> 'c)" where
  "produceWithPatches base recipe =
     (case recipe base of
        Inl e \<Rightarrow> Inl e
      | Inr (ws, c) \<Rightarrow>
          (case produce_writes ws base of
             Inl e \<Rightarrow> Inl e
           | Inr (nxt, patches, inverses) \<Rightarrow> Inr (nxt, patches, inverses, c)))"

section \<open>The store\<close>

text \<open>
  Modelled from the spec: the store (a jotai atom whose setter takes a draft mutator).
  \<open>update(mutator)\<close> is applied synchronously and atomically to the current value. When
  the mutator throws, the value stays as it was and the exception reaches the caller.
  The result is the atom's value and the exception, if any.
\<close>

definition setAtomValue :: "(val \<Rightarrow> failure + val) \<Rightarrow> val \<Rightarrow> val \<times> failure option" where
  "setAtomValue fn atom = (case fn atom of Inl e \<Rightarrow> (atom, Some e) | Inr atom' \<Rightarrow> (atom', None))"

section \<open>Seeding an atom from a query\<close>

text \<open>
  \<open>useSetInitialAtomValueFromQuery\<close> (\<open>src/index.ts\<close>, lines 16 to 27): one run of the
  effect body. The result is the value the body passes to the atom's setter, \<open>None\<close> when
  it does not call the setter. The atom is a plain writable atom: the setter stores its
  argument.
\<close>

definition useSetInitialAtomValueFromQuery :: "val \<Rightarrow> bool \<Rightarrow> val option" where
  "useSetInitialAtomValueFromQuery queryData isLoading =
     (if \<not> isLoading \<and> truthy queryData then Some queryData else None)"

definition atomAfterQuery :: "val \<Rightarrow> val \<Rightarrow> bool \<Rightarrow> val" where
  "atomAfterQuery atom queryData isLoading =
     (case useSetInitialAtomValueFromQuery queryData isLoading of
        None \<Rightarrow> atom
      | Some v \<Rightarrow> v)"

section \<open>Derived atoms\<close>

text \<open>
  \<open>createDerivedImmerAtom\<close> (lines 39 to 56). The projection \<open>getDerivedValue\<close> picks a
  part of the root value; applied to the root draft it returns the draft of that part,
  which the update function then mutates in place. The model gives the projection as the
  path of the part it picks (the path may depend on the value, as a search does);
  a part that is not there reads as \<open>undefined\<close>.
\<close>

definition derivedRead :: "(val \<Rightarrow> path) \<Rightarrow> val \<Rightarrow> val" where
  "derivedRead getDerivedValue root =
     (case get_at (getDerivedValue root) root of None \<Rightarrow> VUndefined | Some s \<Rightarrow> s)"

definition derivedMutator ::
  "(val \<Rightarrow> path) \<Rightarrow> (val \<Rightarrow> failure + draft_write list) \<Rightarrow> val \<Rightarrow> failure + val" where
  "derivedMutator getDerivedValue update draft =
     (let subObject = derivedRead getDerivedValue draft in
      case mutate update subObject of
        Inl e \<Rightarrow> Inl e
      | Inr subObject' \<Rightarrow>
          (case get_at (getDerivedValue draft) draft of
             None \<Rightarrow> Inr draft
           | Some s \<Rightarrow> Inr (put_at (getDerivedValue draft) subObject' draft)))"

definition derivedWrite ::
  "(val \<Rightarrow> path) \<Rightarrow> (val \<Rightarrow> failure + draft_write list) \<Rightarrow> val \<Rightarrow> val \<times> failure option" where
  "derivedWrite getDerivedValue update root =
     setAtomValue (derivedMutator getDerivedValue update) root"


section \<open>Sagas\<close>

text \<open>
  The promise an effect returns settles later, with a result or with a reason. An effect
  function may also throw before it returns a promise (\<open>Inl\<close>).
\<close>

datatype 'r settlement = Resolves 'r | Rejects failure

text \<open>The type \<open>Saga\<close> (lines 86 to 94): at most one function for each stage.\<close>

record ('c, 'r) saga =
  update :: "(val \<Rightarrow> failure + draft_write list \<times> 'c) option"
  effect :: "(val \<Rightarrow> 'c \<Rightarrow> failure + 'r settlement) option"
  postEffect :: "(val \<Rightarrow> 'r \<Rightarrow> failure + draft_write list) option"
  onError :: "(failure \<Rightarrow> val \<Rightarrow> failure + draft_write list) option"

definition empty_saga :: "('c, 'r) saga" where
  "empty_saga = \<lparr>update = None, effect = None, postEffect = None, onError = None\<rparr>"

subsection \<open>The collector\<close>

text \<open>
  The collector (lines 120 to 133) has the three methods \<open>update\<close>, \<open>effect\<close> and
  \<open>postEffect\<close>. Each stores its argument in the saga and returns the collector, so a
  saga declaration is the sequence of method calls it makes on the collector. The
  collector has no property \<open>onError\<close>: calling it is a \<open>TypeError\<close> of the runtime.
\<close>

definition collector_update ::
  "(val \<Rightarrow> failure + draft_write list \<times> 'c) \<Rightarrow> ('c, 'r) saga \<Rightarrow> ('c, 'r) saga" where
  "collector_update updateFn saga = saga\<lparr>update := Some updateFn\<rparr>"

definition collector_effect ::
  "(val \<Rightarrow> 'c \<Rightarrow> failure + 'r settlement) \<Rightarrow> ('c, 'r) saga \<Rightarrow> ('c, 'r) saga" where
  "collector_effect effectFn saga = saga\<lparr>effect := Some effectFn\<rparr>"

definition collector_postEffect ::
  "(val \<Rightarrow> 'r \<Rightarrow> failure + draft_write list) \<Rightarrow> ('c, 'r) saga \<Rightarrow> ('c, 'r) saga" where
  "collector_postEffect postEffectFn saga = saga\<lparr>postEffect := Some postEffectFn\<rparr>"

datatype ('c, 'r) call =
    CallUpdate "val \<Rightarrow> failure + draft_write list \<times> 'c"
  | CallEffect "val \<Rightarrow> 'c \<Rightarrow> failure + 'r settlement"
  | CallPostEffect "val \<Rightarrow> 'r \<Rightarrow> failure + draft_write list"
  | CallOnError "failure \<Rightarrow> val \<Rightarrow> failure + draft_write list"

fun invoke :: "('c, 'r) call \<Rightarrow> ('c, 'r) saga \<Rightarrow> failure + ('c, 'r) saga" where
  "invoke (CallUpdate f) saga = Inr (collector_update f saga)"
| "invoke (CallEffect f) saga = Inr (collector_effect f saga)"
| "invoke (CallPostEffect f) saga = Inr (collector_postEffect f saga)"
| "invoke (CallOnError f) saga = Inl (TypeError ''collector.onError is not a function'')"

fun sagaCollectorFn :: "('c, 'r) call list \<Rightarrow> ('c, 'r) saga \<Rightarrow> failure + ('c, 'r) saga" where
  "sagaCollectorFn [] saga = Inr saga"
| "sagaCollectorFn (c # cs) saga =
     (case invoke c saga of Inl e \<Rightarrow> Inl e | Inr saga' \<Rightarrow> sagaCollectorFn cs saga')"

subsection \<open>The runner\<close>

text \<open>
  The mutator of the optimistic update (lines 151 to 163), run on the draft of the
  atom's latest value. It returns the draft as it leaves it, with the three variables
  it assigns: \<open>nextState\<close>, \<open>inversePatches\<close> and \<open>resultContext\<close>.
\<close>

definition optimisticUpdate ::
  "(val \<Rightarrow> failure + draft_write list \<times> 'c) \<Rightarrow> val \<Rightarrow> failure + (val \<times> val \<times> patch list \<times> 'c)" where
  "optimisticUpdate runUpdate originalDraft =
     (case produceWithPatches originalDraft runUpdate of
        Inl e \<Rightarrow> Inl e
      | Inr (nestedNextState, nestedPatches, nestedInversePatches, resultContext) \<Rightarrow>
          (case applyPatches originalDraft nestedPatches of
             Inl e \<Rightarrow> Inl e
           | Inr draft' \<Rightarrow> Inr (draft', nestedNextState, nestedInversePatches, resultContext)))"

text \<open>
  What is left of a saga once its effect has returned a promise: the promise, and what
  the handlers attached with \<open>then\<close> and \<open>catch\<close> hold (lines 167 to 189).
\<close>

record 'r inflight =
  promise :: "'r settlement"
  thenPostEffect :: "(val \<Rightarrow> 'r \<Rightarrow> failure + draft_write list) option"
  catchInversePatches :: "patch list"
  catchOnError :: "(failure \<Rightarrow> val \<Rightarrow> failure + draft_write list) option"

text \<open>
  The outcome of the synchronous part of \<open>runSaga\<close>: the atom's value, the promise chain
  left in flight, and the exception that reached the caller.
\<close>

record 'r started =
  atomValue :: val
  pending :: "'r inflight option"
  thrown :: "failure option"

definition runStages :: "('c, 'r) saga \<Rightarrow> val \<Rightarrow> 'r started" where
  "runStages saga atom =
     (case update saga of
        None \<Rightarrow> \<lparr>atomValue = atom, pending = None, thrown = None\<rparr>
      | Some runUpdate \<Rightarrow>
          (case optimisticUpdate runUpdate atom of
             Inl e \<Rightarrow> \<lparr>atomValue = atom, pending = None, thrown = Some e\<rparr>
           | Inr (atom', nextState, inversePatches, resultContext) \<Rightarrow>
               (case effect saga of
                  None \<Rightarrow> \<lparr>atomValue = atom', pending = None, thrown = None\<rparr>
                | Some runEffect \<Rightarrow>
                    (case runEffect nextState resultContext of
                       Inl e \<Rightarrow> \<lparr>atomValue = atom', pending = None, thrown = Some e\<rparr>
                     | Inr p \<Rightarrow>
                         \<lparr>atomValue = atom',
                          pending = Some \<lparr>promise = p, thenPostEffect = postEffect saga,
                            catchInversePatches = inversePatches, catchOnError = onError saga\<rparr>,
                          thrown = None\<rparr>))))"

definition runSaga :: "('c, 'r) call list \<Rightarrow> val \<Rightarrow> 'r started" where
  "runSaga calls atom =
     (case sagaCollectorFn calls empty_saga of
        Inl e \<Rightarrow> \<lparr>atomValue = atom, pending = None, thrown = Some e\<rparr>
      | Inr saga \<Rightarrow> runStages saga atom)"

text \<open>
  The handlers. Each returns the atom's value and the error it threw, if any. The
  \<open>catch\<close> handler makes two store updates: the rollback, then the error stage.
\<close>

definition thenHandler :: "'r inflight \<Rightarrow> 'r \<Rightarrow> val \<Rightarrow> val \<times> failure option" where
  "thenHandler ch effectResult atom =
     (case thenPostEffect ch of
        None \<Rightarrow> (atom, None)
      | Some runPostEffect \<Rightarrow>
          setAtomValue (mutate (\<lambda>draft. runPostEffect draft effectResult)) atom)"

definition rollback :: "'r inflight \<Rightarrow> val \<Rightarrow> val \<times> failure option" where
  "rollback ch atom = setAtomValue (\<lambda>draft. applyPatches draft (catchInversePatches ch)) atom"

definition errorStage :: "'r inflight \<Rightarrow> failure \<Rightarrow> val \<Rightarrow> val \<times> failure option" where
  "errorStage ch error atom =
     (case catchOnError ch of
        None \<Rightarrow> (atom, None)
      | Some onErr \<Rightarrow> setAtomValue (mutate (\<lambda>draft. onErr error draft)) atom)"

definition catchHandler :: "'r inflight \<Rightarrow> failure \<Rightarrow> val \<Rightarrow> val \<times> failure option" where
  "catchHandler ch error atom =
     (case rollback ch atom of
        (atom', Some e) \<Rightarrow> (atom', Some e)
      | (atom', None) \<Rightarrow> errorStage ch error atom')"

text \<open>
  The promise settles while the atom holds \<open>atom\<close>. A rejection goes to the \<open>catch\<close>
  handler; so does an error thrown by the \<open>then\<close> handler, since \<open>catch\<close> is attached to
  the promise that \<open>then\<close> returns. The second component is the rejection nobody handles.
\<close>

definition settle :: "'r inflight \<Rightarrow> val \<Rightarrow> val \<times> failure option" where
  "settle ch atom =
     (case promise ch of
        Resolves effectResult \<Rightarrow>
          (case thenHandler ch effectResult atom of
             (atom', None) \<Rightarrow> (atom', None)
           | (atom', Some e) \<Rightarrow> catchHandler ch e atom')
      | Rejects error \<Rightarrow> catchHandler ch error atom)"


section \<open>The example of the specification\<close>

text \<open>
  The scenario of the specification's section on testable properties: a value with a
  flag, an error field and a counter; an update stage that sets the flag; effects that
  reject or resolve; an error stage that records the reason; a concurrent writer that
  bumps the counter. Two postEffect stages store what the effect resolved with: one in
  a property of the value, one in a property of \<open>draft.entity\<close>, which the value lacks.
\<close>

definition example_store :: val where
  "example_store =
     VObj (fmupd ''flag'' (VBool False) (fmupd ''error'' VNull (fmupd ''count'' (VNum 0) fmempty)))"

definition flagged_store :: val where
  "flagged_store =
     VObj (fmupd ''flag'' (VBool True) (fmupd ''error'' VNull (fmupd ''count'' (VNum 0) fmempty)))"



definition setFlag :: "val \<Rightarrow> failure + draft_write list \<times> unit" where
  "setFlag draft = Inr ([Assign [] ''flag'' (VBool True)], ())"

definition networkDown :: failure where
  "networkDown = Thrown (VStr ''network down'')"

definition rejectingEffect :: "val \<Rightarrow> unit \<Rightarrow> failure + val settlement" where
  "rejectingEffect nextState context = Inr (Rejects networkDown)"

definition resolvingEffect :: "val \<Rightarrow> unit \<Rightarrow> failure + val settlement" where
  "resolvingEffect nextState context = Inr (Resolves (VNum 7))"

definition recordError :: "failure \<Rightarrow> val \<Rightarrow> failure + draft_write list" where
  "recordError error draft =
     Inr [Assign [] ''error''
            (case error of Thrown x \<Rightarrow> x | TypeError s \<Rightarrow> VStr s | PatchError s \<Rightarrow> VStr s)]"

definition storeServerId :: "val \<Rightarrow> val \<Rightarrow> failure + draft_write list" where
  "storeServerId draft effectResult = Inr [Assign [] ''serverId'' effectResult]"

definition storeEntityId :: "val \<Rightarrow> val \<Rightarrow> failure + draft_write list" where
  "storeEntityId draft effectResult = Inr [Assign [''entity''] ''id'' effectResult]"




definition flagInFlight :: "val inflight" where
  "flagInFlight = \<lparr>promise = Rejects networkDown, thenPostEffect = None,
     catchInversePatches = [Replace [''flag''] (VBool False)], catchOnError = None\<rparr>"

definition entityInFlight :: "val inflight" where
  "entityInFlight = \<lparr>promise = Resolves (VNum 7), thenPostEffect = Some storeEntityId,
     catchInversePatches = [Replace [''flag''] (VBool False)], catchOnError = None\<rparr>"

text \<open>
  The README's derived atom: the root value has an object \<open>anotherObject\<close>, the
  projection picks it, and the update sets its \<open>name\<close>.
\<close>

definition nested_store :: val where
  "nested_store =
     VObj (fmupd ''anotherObject'' (VObj (fmupd ''nestedNumber'' (VNum 1) fmempty))
       (fmupd ''title'' (VStr ''t'') fmempty))"

definition anotherObject :: "val \<Rightarrow> path" where
  "anotherObject bawno = [''anotherObject'']"

definition setName :: "val \<Rightarrow> failure + draft_write list" where
  "setName draft = Inr [Assign [] ''name'' (VStr ''n'')]"

text \<open>A call of the collector that registers an update stage.\<close>

fun is_update_call :: "('c, 'r) call \<Rightarrow> bool" where
  "is_update_call (CallUpdate f) = True"
| "is_update_call _ = False"

section \<open>Properties of drafts and of the patch engine\<close>

lemma fields_of_Some: "fields_of v = Some m \<longleftrightarrow> v = VObj m"
  by (cases v) auto



lemma lookup_set_key: "fmlookup (set_key k x m) k' = (if k = k' then x else fmlookup m k')"
  by (auto simp: set_key_def split: option.splits)


lemma fmupd_same: "fmlookup m k = Some c \<Longrightarrow> fmupd k c m = m"
  by (rule fmap_ext) auto




lemma set_key_same: "set_key k (fmlookup m k) m = m"
  by (rule fmap_ext) (auto simp: lookup_set_key)

lemma alter_noop: "alter_at p x v = Some v' \<Longrightarrow> get_at p v = x \<Longrightarrow> v' = v"
proof (induction p arbitrary: v v')
  case Nil
  then show ?case by simp
next
  case (Cons k ks)
  from Cons.prems(1) obtain m where v: "v = VObj m"
    by (auto simp: fields_of_Some split: option.splits)
  show ?case
  proof (cases "ks = []")
    case True
    have g: "get_at [k] (VObj m) = fmlookup m k"
      by (simp split: option.splits)
    from Cons.prems v True g have "x = fmlookup m k" "v' = VObj (set_key k x m)"
      by auto
    then show ?thesis by (simp add: v set_key_same)
  next
    case False
    from Cons.prems(1) v False obtain c c' where c: "fmlookup m k = Some c"
      "alter_at ks x c = Some c'" "v' = VObj (fmupd k c' m)"
      by (auto split: option.splits)
    from Cons.prems(2) v c have "get_at ks c = x" by simp
    from Cons.IH[OF c(2) this] show ?thesis using c v by (simp add: fmupd_same)
  qed
qed

lemma apply_write_patch:
  "apply_write w v = Inr v' \<Longrightarrow> applyPatches v (forward_patch w v) = Inr v'"
  by (cases w)
     (auto simp: apply_write_def applyPatch_def dest: alter_noop split: option.splits)


lemma applyPatches_append:
  "applyPatches v (as @ bs) =
     (case applyPatches v as of Inl e \<Rightarrow> Inl e | Inr v' \<Rightarrow> applyPatches v' bs)"
  by (induction as arbitrary: v) (auto split: sum.splits)

lemma produce_writes_run:
  "produce_writes ws v = Inr (nxt, ps, ips) \<Longrightarrow> run_writes ws v = Inr nxt"
  by (induction ws arbitrary: v nxt ps ips) (auto split: sum.splits)

lemma run_writes_eq_produce:
  "run_writes ws v =
     (case produce_writes ws v of Inl e \<Rightarrow> Inl e | Inr (nxt, ps, ips) \<Rightarrow> Inr nxt)"
  by (induction ws arbitrary: v) (auto split: sum.splits)

lemma run_writes_produce:
  "run_writes ws v = Inr nxt \<Longrightarrow> \<exists>ps ips. produce_writes ws v = Inr (nxt, ps, ips)"
  by (auto simp: run_writes_eq_produce split: sum.splits)

lemma run_writes_produce_Inl:
  "run_writes ws v = Inl e \<Longrightarrow> produce_writes ws v = Inl e"
  by (auto simp: run_writes_eq_produce split: sum.splits)

lemma produce_writes_replay:
  "produce_writes ws v = Inr (nxt, ps, ips) \<Longrightarrow> applyPatches v ps = Inr nxt"
  by (induction ws arbitrary: v nxt ps ips)
     (auto simp: applyPatches_append apply_write_patch split: sum.splits)







section \<open>Properties of derived atoms\<close>















section \<open>Properties of the runner\<close>

lemma optimisticUpdate_Inr:
  assumes "optimisticUpdate runUpdate atom = Inr (atom', nextState, inv_ps, ctx)"
  shows "\<exists>ws ps. runUpdate atom = Inr (ws, ctx) \<and> produce_writes ws atom = Inr (nextState, ps, inv_ps)
           \<and> atom' = nextState"
proof -
  from assms obtain ws ps where r: "runUpdate atom = Inr (ws, ctx)"
    and p: "produce_writes ws atom = Inr (nextState, ps, inv_ps)"
    and a: "applyPatches atom ps = Inr atom'"
    by (auto simp: optimisticUpdate_def produceWithPatches_def split: sum.splits prod.splits)
  from produce_writes_replay[OF p] a have "atom' = nextState" by simp
  with r p show ?thesis by blast
qed

lemma optimisticUpdate_ok:
  assumes "runUpdate atom = Inr (ws, ctx)" and "produce_writes ws atom = Inr (nxt, ps, ips)"
  shows "optimisticUpdate runUpdate atom = Inr (nxt, nxt, ips, ctx)"
  using assms produce_writes_replay[OF assms(2)]
  by (simp add: optimisticUpdate_def produceWithPatches_def)

lemma pending_runStages:
  assumes "pending (runStages saga atom) = Some ch"
  shows "\<exists>runUpdate runEffect ws ctx nxt ps.
           update saga = Some runUpdate \<and> effect saga = Some runEffect
         \<and> runUpdate atom = Inr (ws, ctx)
         \<and> produce_writes ws atom = Inr (nxt, ps, catchInversePatches ch)
         \<and> atomValue (runStages saga atom) = nxt
         \<and> thrown (runStages saga atom) = None
         \<and> runEffect nxt ctx = Inr (promise ch)
         \<and> thenPostEffect ch = postEffect saga \<and> catchOnError ch = onError saga"
proof -
  from assms obtain runUpdate where u: "update saga = Some runUpdate"
    by (auto simp: runStages_def split: option.splits)
  from assms u obtain atom' nextState inv_ps ctx
    where o: "optimisticUpdate runUpdate atom = Inr (atom', nextState, inv_ps, ctx)"
    by (auto simp: runStages_def split: sum.splits)
  from optimisticUpdate_Inr[OF o] obtain ws ps where w: "runUpdate atom = Inr (ws, ctx)"
    "produce_writes ws atom = Inr (nextState, ps, inv_ps)" "atom' = nextState"
    by blast
  from assms u o obtain runEffect where e: "effect saga = Some runEffect"
    by (auto simp: runStages_def split: option.splits)
  from assms u o e obtain p where p: "runEffect nextState ctx = Inr p"
    by (auto simp: runStages_def split: sum.splits)
  from assms u o e p have ch: "ch = \<lparr>promise = p, thenPostEffect = postEffect saga,
      catchInversePatches = inv_ps, catchOnError = onError saga\<rparr>"
    by (simp add: runStages_def)
  have "atomValue (runStages saga atom) = nextState" "thrown (runStages saga atom) = None"
    using u o e p w(3) by (simp_all add: runStages_def)
  with u e w p ch show ?thesis by simp
qed

lemma settle_resolved:
  "promise ch = Resolves effectResult \<Longrightarrow> thenPostEffect ch = Some runPostEffect \<Longrightarrow>
   settle ch current =
     (case mutate (\<lambda>draft. runPostEffect draft effectResult) current of
        Inl e \<Rightarrow> catchHandler ch e current
      | Inr v \<Rightarrow> (v, None))"
  by (simp add: settle_def thenHandler_def setAtomValue_def split: sum.splits)


text \<open>What the runner does with a rejection and with errors of the other stages.\<close>

lemma rejection_is_handled:
  "promise ch = Rejects reason \<Longrightarrow> settle ch current = catchHandler ch reason current"
  by (simp add: settle_def)

lemma catchHandler_runs_onError:
  "rollback ch atom = (atom', None) \<Longrightarrow> catchOnError ch = Some onErr \<Longrightarrow>
   catchHandler ch error atom = setAtomValue (mutate (\<lambda>draft. onErr error draft)) atom'"
  by (simp add: catchHandler_def errorStage_def)

lemma update_error_propagates:
  "update saga = Some runUpdate \<Longrightarrow> runUpdate atom = Inl e \<Longrightarrow>
   runStages saga atom = \<lparr>atomValue = atom, pending = None, thrown = Some e\<rparr>"
  by (simp add: runStages_def optimisticUpdate_def produceWithPatches_def)

lemma onError_error_propagates:
  "rollback ch atom = (atom', None) \<Longrightarrow> catchOnError ch = Some onErr \<Longrightarrow>
   onErr error atom' = Inl e \<Longrightarrow> catchHandler ch error atom = (atom', Some e)"
  by (simp add: catchHandler_def errorStage_def setAtomValue_def mutate_def)

lemma effect_throw_propagates:
  assumes "update saga = Some runUpdate" and "effect saga = Some runEffect"
    and "runUpdate atom = Inr (ws, ctx)" and "run_writes ws atom = Inr atom'"
    and "runEffect atom' ctx = Inl e"
  shows "runStages saga atom = \<lparr>atomValue = atom', pending = None, thrown = Some e\<rparr>"
proof -
  from run_writes_produce[OF assms(4)] obtain ps ips
    where p: "produce_writes ws atom = Inr (atom', ps, ips)" by blast
  have "optimisticUpdate runUpdate atom = Inr (atom', atom', ips, ctx)"
    using assms(3) p by (rule optimisticUpdate_ok)
  then show ?thesis using assms(1,2,5) by (simp add: runStages_def)
qed

lemma success_path_without_throw:
  "promise ch = Resolves effectResult \<Longrightarrow>
   (thenPostEffect ch = None \<longrightarrow> settle ch current = (current, None))
   \<and> (\<forall>runPostEffect v. thenPostEffect ch = Some runPostEffect \<longrightarrow>
          mutate (\<lambda>draft. runPostEffect draft effectResult) current = Inr v \<longrightarrow>
          settle ch current = (v, None))"
  by (simp add: settle_def thenHandler_def setAtomValue_def)

section \<open>Properties of the collector\<close>

text \<open>
  The collector's methods do not read the saga: what an earlier call of a stage method
  stored is gone once the same method is called again, whatever was called in between.
\<close>

lemma collect_update_last:
  "sagaCollectorFn (cs @ [CallUpdate g]) (saga\<lparr>update := u\<rparr>)
     = sagaCollectorFn (cs @ [CallUpdate g]) saga"
proof (induction cs arbitrary: saga u)
  case Nil
  then show ?case by (simp add: collector_update_def)
next
  case (Cons c cs)
  show ?case
  proof (cases c)
    case (CallUpdate f)
    then show ?thesis by (simp add: collector_update_def)
  next
    case (CallEffect f)
    have "collector_effect f (saga\<lparr>update := u\<rparr>) = (collector_effect f saga)\<lparr>update := u\<rparr>"
      by (simp add: collector_effect_def)
    then show ?thesis using CallEffect Cons.IH by simp
  next
    case (CallPostEffect f)
    have "collector_postEffect f (saga\<lparr>update := u\<rparr>) = (collector_postEffect f saga)\<lparr>update := u\<rparr>"
      by (simp add: collector_postEffect_def)
    then show ?thesis using CallPostEffect Cons.IH by simp
  next
    case (CallOnError f)
    then show ?thesis by simp
  qed
qed

lemma collect_effect_last:
  "sagaCollectorFn (cs @ [CallEffect g]) (saga\<lparr>effect := u\<rparr>)
     = sagaCollectorFn (cs @ [CallEffect g]) saga"
proof (induction cs arbitrary: saga u)
  case Nil
  then show ?case by (simp add: collector_effect_def)
next
  case (Cons c cs)
  show ?case
  proof (cases c)
    case (CallUpdate f)
    have "collector_update f (saga\<lparr>effect := u\<rparr>) = (collector_update f saga)\<lparr>effect := u\<rparr>"
      by (simp add: collector_update_def)
    then show ?thesis using CallUpdate Cons.IH by simp
  next
    case (CallEffect f)
    then show ?thesis by (simp add: collector_effect_def)
  next
    case (CallPostEffect f)
    have "collector_postEffect f (saga\<lparr>effect := u\<rparr>) = (collector_postEffect f saga)\<lparr>effect := u\<rparr>"
      by (simp add: collector_postEffect_def)
    then show ?thesis using CallPostEffect Cons.IH by simp
  next
    case (CallOnError f)
    then show ?thesis by simp
  qed
qed

lemma collect_postEffect_last:
  "sagaCollectorFn (cs @ [CallPostEffect g]) (saga\<lparr>postEffect := u\<rparr>)
     = sagaCollectorFn (cs @ [CallPostEffect g]) saga"
proof (induction cs arbitrary: saga u)
  case Nil
  then show ?case by (simp add: collector_postEffect_def)
next
  case (Cons c cs)
  show ?case
  proof (cases c)
    case (CallUpdate f)
    have "collector_update f (saga\<lparr>postEffect := u\<rparr>) = (collector_update f saga)\<lparr>postEffect := u\<rparr>"
      by (simp add: collector_update_def)
    then show ?thesis using CallUpdate Cons.IH by simp
  next
    case (CallEffect f)
    have "collector_effect f (saga\<lparr>postEffect := u\<rparr>) = (collector_effect f saga)\<lparr>postEffect := u\<rparr>"
      by (simp add: collector_effect_def)
    then show ?thesis using CallEffect Cons.IH by simp
  next
    case (CallPostEffect f)
    then show ?thesis by (simp add: collector_postEffect_def)
  next
    case (CallOnError f)
    then show ?thesis by simp
  qed
qed

lemma collect_keeps_update:
  "list_all (\<lambda>c. \<not> is_update_call c) calls \<Longrightarrow> sagaCollectorFn calls saga = Inr saga' \<Longrightarrow>
   update saga' = update saga"
proof (induction calls arbitrary: saga)
  case Nil
  then show ?case by simp
next
  case (Cons c cs)
  then show ?case
    by (cases c) (auto simp: collector_effect_def collector_postEffect_def)
qed

lemma runSaga_without_update:
  assumes "list_all (\<lambda>c. \<not> is_update_call c) calls"
  shows "atomValue (runSaga calls atom) = atom \<and> pending (runSaga calls atom) = None"
proof (cases "sagaCollectorFn calls empty_saga")
  case (Inl e)
  then show ?thesis by (simp add: runSaga_def)
next
  case (Inr s)
  from collect_keeps_update[OF assms Inr] have "update s = None"
    by (simp add: empty_saga_def)
  then show ?thesis using Inr by (simp add: runSaga_def runStages_def)
qed

text \<open>No call of the collector touches the saga's \<open>onError\<close>.\<close>

lemma collect_keeps_onError:
  "sagaCollectorFn calls saga = Inr saga' \<Longrightarrow> onError saga' = onError saga"
proof (induction calls arbitrary: saga)
  case Nil
  then show ?case by simp
next
  case (Cons c cs)
  then show ?case
    by (cases c) (auto simp: collector_update_def collector_effect_def collector_postEffect_def)
qed

lemma runSaga_never_has_onError:
  assumes "pending (runSaga calls atom) = Some ch"
  shows "catchOnError ch = None"
proof (cases "sagaCollectorFn calls empty_saga")
  case (Inl e)
  then show ?thesis using assms by (simp add: runSaga_def)
next
  case (Inr s)
  from collect_keeps_onError[OF Inr] have "onError s = None"
    by (simp add: empty_saga_def)
  moreover from assms Inr have "pending (runStages s atom) = Some ch"
    by (simp add: runSaga_def)
  ultimately show ?thesis using pending_runStages[of s atom ch] by auto
qed

section \<open>The example, evaluated\<close>

lemma optimisticUpdate_setFlag:
  "optimisticUpdate setFlag example_store
     = Inr (flagged_store, flagged_store, [Replace [''flag''] (VBool False)], ())"
  by (simp add: optimisticUpdate_def produceWithPatches_def
      setFlag_def apply_write_def applyPatch_def example_store_def set_key_def flagged_store_def)



lemma runSaga_flag:
  "runSaga [CallUpdate setFlag, CallEffect rejectingEffect] example_store
     = \<lparr>atomValue = flagged_store, pending = Some flagInFlight, thrown = None\<rparr>"
  by (simp add: runSaga_def runStages_def optimisticUpdate_setFlag rejectingEffect_def
      flagInFlight_def empty_saga_def collector_update_def collector_effect_def)

lemma runSaga_entity:
  "runSaga [CallUpdate setFlag, CallEffect resolvingEffect, CallPostEffect storeEntityId]
      example_store
     = \<lparr>atomValue = flagged_store, pending = Some entityInFlight, thrown = None\<rparr>"
  by (simp add: runSaga_def runStages_def optimisticUpdate_setFlag resolvingEffect_def
      entityInFlight_def empty_saga_def collector_update_def collector_effect_def
      collector_postEffect_def)

lemma rollback_flag: "rollback flagInFlight flagged_store = (example_store, None)"
  by (simp add: rollback_def setAtomValue_def flagInFlight_def flagged_store_def
      example_store_def applyPatch_def set_key_def)

lemma rollback_entity: "rollback entityInFlight flagged_store = (example_store, None)"
  by (simp add: rollback_def setAtomValue_def entityInFlight_def flagged_store_def
      example_store_def applyPatch_def set_key_def)

lemma settle_flag: "settle flagInFlight flagged_store = (example_store, None)"
proof -
  have "errorStage flagInFlight e example_store = (example_store, None)" for e
    by (simp add: errorStage_def flagInFlight_def)
  moreover have "promise flagInFlight = Rejects networkDown"
    by (simp add: flagInFlight_def)
  ultimately show ?thesis
    by (simp add: settle_def catchHandler_def rollback_flag)
qed

lemma postEffect_entity_throws:
  "mutate (\<lambda>draft. storeEntityId draft (VNum 7)) flagged_store
      = Inl (TypeError ''Cannot write a property of a non-object'')"
  by (simp add: mutate_def storeEntityId_def apply_write_def flagged_store_def)

lemma settle_entity: "settle entityInFlight flagged_store = (example_store, None)"
proof -
  have "thenHandler entityInFlight (VNum 7) flagged_store
      = (flagged_store, Some (TypeError ''Cannot write a property of a non-object''))"
    by (simp add: thenHandler_def setAtomValue_def postEffect_entity_throws entityInFlight_def)
  moreover have "errorStage entityInFlight e example_store = (example_store, None)" for e
    by (simp add: errorStage_def entityInFlight_def)
  moreover have "promise entityInFlight = Resolves (VNum 7)"
    by (simp add: entityInFlight_def)
  ultimately show ?thesis
    by (simp add: settle_def catchHandler_def rollback_entity)
qed

lemma derivedWrite_nested:
  "derivedWrite anotherObject setName nested_store
     = (VObj (fmupd ''anotherObject''
          (VObj (fmupd ''name'' (VStr ''n'') (fmupd ''nestedNumber'' (VNum 1) fmempty)))
          (fmupd ''title'' (VStr ''t'') fmempty)), None)"
  by (simp add: derivedWrite_def derivedMutator_def derivedRead_def setAtomValue_def mutate_def
      anotherObject_def setName_def nested_store_def apply_write_def set_key_def)

lemma flagged_differs: "example_store \<noteq> flagged_store"
proof
  assume "example_store = flagged_store"
  then have "get_at [''flag''] example_store = get_at [''flag''] flagged_store"
    by simp
  then show False
    by (simp add: example_store_def flagged_store_def)
qed

section \<open>The claims\<close>

text \<open>
  Claim C1. The declaration of the repository's README, which calls \<open>update\<close>, \<open>effect\<close>
  and then \<open>onError\<close> on the collector, with an effect that rejects: the call of
  \<open>onError\<close> throws a \<open>TypeError\<close> while the saga is collected, so nothing runs and the
  atom keeps its value. Without the call of \<open>onError\<close> the saga runs, the rejection
  rolls the flag back, no error stage is in the chain and the error field stays \<open>null\<close>.
\<close>

theorem onError_declaration_fails:
  "runSaga [CallUpdate setFlag, CallEffect rejectingEffect, CallOnError recordError] example_store
     = \<lparr>atomValue = example_store, pending = None,
        thrown = Some (TypeError ''collector.onError is not a function'')\<rparr>
   \<and> runSaga [CallUpdate setFlag, CallEffect rejectingEffect] example_store
     = \<lparr>atomValue = flagged_store, pending = Some flagInFlight, thrown = None\<rparr>
   \<and> catchOnError flagInFlight = None
   \<and> settle flagInFlight flagged_store = (example_store, None)
   \<and> get_at [''error''] example_store = Some VNull"
  using runSaga_flag settle_flag
  by (simp add: runSaga_def flagInFlight_def example_store_def)







text \<open>
  Claim C5. A saga whose effect resolves and whose postEffect stage throws: the
  declaration sets the flag, the effect resolves with 7, and the postEffect stage writes
  \<open>draft.entity.id\<close> on a value without \<open>entity\<close>. When the promise resolves, the chain
  applies the inverse patches: the atom is back at the value before the update, which
  differs from the value the update left, and no rejection is left unhandled.
\<close>

theorem success_path_rolls_back_when_postEffect_throws:
  "runSaga [CallUpdate setFlag, CallEffect resolvingEffect, CallPostEffect storeEntityId]
      example_store
     = \<lparr>atomValue = flagged_store, pending = Some entityInFlight, thrown = None\<rparr>
   \<and> promise entityInFlight = Resolves (VNum 7)
   \<and> settle entityInFlight flagged_store = (example_store, None)
   \<and> example_store \<noteq> flagged_store"
  using runSaga_entity settle_entity flagged_differs
  by (simp add: entityInFlight_def)

text \<open>
  Claim C6. A saga without an update stage does nothing, whatever effect, postEffect
  and onError stages it has: running it leaves the atom's value as it was, starts no
  effect (nothing is left in flight and nothing is thrown), and the same holds for
  every declaration that never calls \<open>update\<close>.
\<close>

theorem noop_without_update:
  "(update saga = None \<longrightarrow>
      runStages saga atom = \<lparr>atomValue = atom, pending = None, thrown = None\<rparr>)
   \<and> (list_all (\<lambda>c. \<not> is_update_call c) calls \<longrightarrow>
      atomValue (runSaga calls atom) = atom \<and> pending (runSaga calls atom) = None)"
  by (simp add: runStages_def runSaga_without_update)

theorem noop_without_update_witness:
  "runStages \<lparr>update = None, effect = Some rejectingEffect, postEffect = Some storeServerId,
       onError = Some recordError\<rparr> example_store
     = \<lparr>atomValue = example_store, pending = None, thrown = None\<rparr>
   \<and> atomValue (runSaga [CallEffect rejectingEffect, CallPostEffect storeServerId] example_store)
       = example_store
   \<and> pending (runSaga [CallEffect rejectingEffect, CallPostEffect storeServerId] example_store)
       = None"
  using noop_without_update [of "\<lparr>update = None, effect = Some rejectingEffect,
       postEffect = Some storeServerId, onError = Some recordError\<rparr>" example_store
       "[CallEffect rejectingEffect, CallPostEffect storeServerId]"]
  by simp

text \<open>
  Claim C7. An error that the postEffect stage throws is caught by the runner: when the
  promise resolves and the store update of the postEffect stage throws \<open>e\<close>, the chain
  continues with the \<open>catch\<close> handler on \<open>e\<close>, which rolls the update back and runs the
  error stage, as it does for a rejection of the effect.
\<close>

theorem postEffect_error_is_caught:
  assumes "promise ch = Resolves effectResult" and "thenPostEffect ch = Some runPostEffect"
    and "mutate (\<lambda>draft. runPostEffect draft effectResult) current = Inl e"
  shows "settle ch current = catchHandler ch e current"
  using assms by (simp add: settle_resolved)

theorem postEffect_error_is_caught_witness:
  "settle entityInFlight flagged_store
     = catchHandler entityInFlight (TypeError ''Cannot write a property of a non-object'')
         flagged_store
   \<and> catchHandler entityInFlight (TypeError ''Cannot write a property of a non-object'')
         flagged_store = (example_store, None)"
proof -
  have 1: "promise entityInFlight = Resolves (VNum 7)"
    and 2: "thenPostEffect entityInFlight = Some storeEntityId"
    by (simp_all add: entityInFlight_def)
  from postEffect_error_is_caught[OF 1 2 postEffect_entity_throws] settle_entity show ?thesis
    by simp
qed


text \<open>
  Claim C9. Every stage method (\<open>update\<close>, \<open>effect\<close>, \<open>postEffect\<close>) works on the one
  saga the collector holds, and a second call of a stage method replaces the function
  the first call stored: after two calls only the function of the last call is in the
  saga, and a declaration that starts with a call of a stage method and ends with a call
  of the same method collects the same saga without the first call.
\<close>

theorem builder_overwrites:
  "sagaCollectorFn [CallUpdate f, CallUpdate g] saga = Inr (saga\<lparr>update := Some g\<rparr>)
   \<and> sagaCollectorFn [CallEffect f', CallEffect g'] saga = Inr (saga\<lparr>effect := Some g'\<rparr>)
   \<and> sagaCollectorFn [CallPostEffect f'', CallPostEffect g''] saga
       = Inr (saga\<lparr>postEffect := Some g''\<rparr>)
   \<and> sagaCollectorFn (CallUpdate f # cs @ [CallUpdate g]) saga
       = sagaCollectorFn (cs @ [CallUpdate g]) saga
   \<and> sagaCollectorFn (CallEffect f' # cs @ [CallEffect g']) saga
       = sagaCollectorFn (cs @ [CallEffect g']) saga
   \<and> sagaCollectorFn (CallPostEffect f'' # cs @ [CallPostEffect g'']) saga
       = sagaCollectorFn (cs @ [CallPostEffect g'']) saga"
  by (simp add: collector_update_def collector_effect_def collector_postEffect_def
      collect_update_last collect_effect_last collect_postEffect_last)

text \<open>
  Claim C10. \<open>useSetInitialAtomValueFromQuery\<close> calls the atom's setter only when
  \<open>isLoading\<close> is false and \<open>queryData\<close> is truthy, and then with \<open>queryData\<close>. For every
  falsy \<open>queryData\<close> it never calls the setter, also once loading is over, and the atom
  keeps its value; \<open>undefined\<close>, \<open>null\<close>, \<open>0\<close>, the empty string and \<open>false\<close> are falsy.
\<close>

theorem seed_only_when_loaded_and_truthy:
  "(useSetInitialAtomValueFromQuery queryData isLoading = Some v
      \<longleftrightarrow> \<not> isLoading \<and> truthy queryData \<and> v = queryData)
   \<and> (\<not> truthy queryData \<longrightarrow>
        useSetInitialAtomValueFromQuery queryData isLoading = None
        \<and> atomAfterQuery atom queryData isLoading = atom)
   \<and> \<not> truthy VUndefined \<and> \<not> truthy VNull \<and> \<not> truthy (VNum 0)
   \<and> \<not> truthy (VStr []) \<and> \<not> truthy (VBool False)"
  by (auto simp: useSetInitialAtomValueFromQuery_def atomAfterQuery_def)

theorem seed_only_when_loaded_and_truthy_witness:
  "\<not> truthy (VNum 0)
   \<and> useSetInitialAtomValueFromQuery (VNum 0) False = None
   \<and> atomAfterQuery example_store (VNum 0) False = example_store
   \<and> useSetInitialAtomValueFromQuery example_store False = Some example_store
   \<and> truthy example_store"
  using seed_only_when_loaded_and_truthy [of "VNum 0" False "VNum 0" example_store]
    seed_only_when_loaded_and_truthy [of example_store False example_store VNull]
  by (simp add: example_store_def)

end
